theory Spec2Isabelle
  imports Complex_Main
begin

section \<open>Errors and tensors\<close>

text \<open>
  Every exception that \<^verbatim>\<open>main.py\<close> can raise is a value. A failure inside a
  collaborator that lives outside \<^verbatim>\<open>main.py\<close> (the network, the loss
  functions, the image codecs) is \<open>ExternalError\<close>; \<open>SystemExit\<close> is the exit of the
  argument parser on a command line it rejects; \<open>Cv2Error\<close> is the exception of
  \<^verbatim>\<open>cv2.resize\<close>.
\<close>

datatype error =
    StopIteration
  | ZeroDivisionError
  | AssertionError
  | AttributeError string
  | RuntimeError string
  | UnboundLocalError string
  | IndexError
  | TypeError
  | ValueError
  | SystemExit
  | Cv2Error
  | ExternalError

text \<open>
  A tensor of shape \<open>B \<times> C \<times> H \<times> W\<close>: its four extents and the value at each index.
  Floating-point values are read as real numbers.
\<close>

record tensor =
  nB :: nat
  nC :: nat
  nH :: nat
  nW :: nat
  px :: "nat \<Rightarrow> nat \<Rightarrow> nat \<Rightarrow> nat \<Rightarrow> real"

section \<open>Ground-truth pyramid (train, lines 203-209)\<close>

text \<open>
  \<^verbatim>\<open>F.avg_pool2d(x, 2)\<close>: kernel 2, stride 2, no padding, floor mode. Each output
  extent is \<open>(n - 2) div 2 + 1\<close>, that is \<open>n div 2\<close> for \<open>n \<ge> 2\<close>; a trailing odd row or
  column is dropped. The library refuses an input whose output would have an
  extent below 1 (RuntimeError, ``Output size is too small'').
\<close>

definition avg_pool2d :: "tensor \<Rightarrow> error + tensor" where
  "avg_pool2d x =
     (if nH x < 2 \<or> nW x < 2 then Inl (RuntimeError ''Output size is too small'')
      else Inr (x\<lparr>nH := nH x div 2, nW := nW x div 2,
                  px := \<lambda>b c i j. (px x b c (2 * i) (2 * j) + px x b c (2 * i) (2 * j + 1)
                                  + px x b c (2 * i + 1) (2 * j) + px x b c (2 * i + 1) (2 * j + 1)) / 4\<rparr>))"

text \<open>
  The loop \<^verbatim>\<open>for l in range(num_levels): x = avg_pool2d(x, 2); pyramid.insert(0, x)\<close>,
  with the remaining iteration count, the current \<open>x\<close> and the list built so far.
\<close>

fun gt_pyramid_loop :: "nat \<Rightarrow> tensor \<Rightarrow> tensor list \<Rightarrow> error + tensor list" where
  "gt_pyramid_loop 0 x pyr = Inr pyr"
| "gt_pyramid_loop (Suc n) x pyr =
     (case avg_pool2d x of
        Inl e \<Rightarrow> Inl e
      | Inr y \<Rightarrow> gt_pyramid_loop n y (y # pyr))"

definition flow_gt_pyramid :: "int \<Rightarrow> tensor \<Rightarrow> error + tensor list" where
  "flow_gt_pyramid num_levels flow_gt = gt_pyramid_loop (nat num_levels) flow_gt []"

section \<open>Input normalisation (train, lines 192-201)\<close>

text \<open>
  \<^verbatim>\<open>r = (img[:,1] - 0.485) / 0.229; g = (img[:,1] - 0.456) / 0.224;\<close>
  \<^verbatim>\<open>b = (img[:,2] - 0.406) / 0.225; img = torch.stack([r,g,b], dim = 1)\<close>.
  Indexing channel 1 or 2 of a tensor with fewer channels raises IndexError.
\<close>

definition input_norm :: "tensor \<Rightarrow> error + tensor" where
  "input_norm img =
     (if nC img < 3 then Inl IndexError
      else let r = (\<lambda>b i j. (px img b 1 i j - 0.485) / 0.229);
               g = (\<lambda>b i j. (px img b 1 i j - 0.456) / 0.224);
               bl = (\<lambda>b i j. (px img b 2 i j - 0.406) / 0.225)
           in Inr (img\<lparr>nC := 3,
                       px := \<lambda>b c i j. if c = 0 then r b i j else if c = 1 then g b i j else bl b i j\<rparr>))"

section \<open>Argument values and the parsed namespace (main, lines 26-105)\<close>

datatype mode_fn = FnTrain | FnPred | FnTest

datatype val =
    VNone
  | VBool bool
  | VInt int
  | VFloat real
  | VStr string
  | VList "val list"
  | VFunc mode_fn

text \<open>The namespace returned by \<^verbatim>\<open>parse_args\<close>: attribute name to value.\<close>

type_synonym namespace = "string \<Rightarrow> val option"

definition getattr :: "namespace \<Rightarrow> string \<Rightarrow> error + val" where
  "getattr args k = (case args k of None \<Rightarrow> Inl (AttributeError k) | Some v \<Rightarrow> Inr v)"

text \<open>An attribute used as an integer (\<^verbatim>\<open>range(n)\<close>, \<^verbatim>\<open>step % n\<close>); a bool counts as 0 or 1.\<close>

definition get_int :: "namespace \<Rightarrow> string \<Rightarrow> error + int" where
  "get_int args k =
     (case getattr args k of
        Inl e \<Rightarrow> Inl e
      | Inr (VInt n) \<Rightarrow> Inr n
      | Inr (VBool b) \<Rightarrow> Inr (if b then 1 else 0)
      | Inr _ \<Rightarrow> Inl TypeError)"

fun truthy :: "val \<Rightarrow> bool" where
  "truthy VNone = False"
| "truthy (VBool b) = b"
| "truthy (VInt n) = (n \<noteq> 0)"
| "truthy (VFloat r) = (r \<noteq> 0)"
| "truthy (VStr s) = (s \<noteq> [])"
| "truthy (VList vs) = (vs \<noteq> [])"
| "truthy (VFunc f) = True"

text \<open>\<^verbatim>\<open>n == v\<close> for an integer \<open>n\<close> and an attribute value \<open>v\<close>.\<close>

fun int_equals :: "int \<Rightarrow> val \<Rightarrow> bool" where
  "int_equals n (VInt k) = (n = k)"
| "int_equals n (VFloat r) = (of_int n = r)"
| "int_equals n (VBool b) = (n = (if b then 1 else 0))"
| "int_equals n v = False"

fun py_len :: "val \<Rightarrow> error + int" where
  "py_len (VList vs) = Inr (int (length vs))"
| "py_len (VStr s) = Inr (int (length s))"
| "py_len v = Inl TypeError"

text \<open>
  The options each parser registers, as (destination, default). \<^verbatim>\<open>set_defaults(func = ...)\<close>
  adds \<open>func\<close> to the subparser's defaults. The default of \<open>log_dir\<close> is built from the
  clock at start-up and is a parameter here.
\<close>

definition public_parser :: "(string \<times> val) list" where
  "public_parser = [(''search_range'', VInt 4), (''device'', VStr ''cuda'')]"

definition train_parser :: "string \<Rightarrow> (string \<times> val) list" where
  "train_parser stamp =
     [(''func'', VFunc FnTrain),
      (''crop_type'', VStr ''random''),
      (''crop_shape'', VList [VInt 384, VInt 448]),
      (''resize_shape'', VNone),
      (''resize_scale'', VNone),
      (''num_workers'', VInt 8),
      (''batch_size'', VInt 8),
      (''dataset_dir'', VNone),
      (''dataset'', VNone),
      (''output_level'', VInt 2),
      (''input_norm'', VBool False),
      (''corr'', VStr ''cost_volume''),
      (''num_levels'', VInt 6),
      (''lv_chs'', VList [VInt 16, VInt 32, VInt 64, VInt 96, VInt 128, VInt 192]),
      (''corr_activation'', VBool False),
      (''use_context_network'', VBool False),
      (''use_warping_layer'', VBool False),
      (''weights'', VList [VInt 1, VFloat 0.32, VFloat 0.08, VFloat 0.02, VFloat 0.01, VFloat 0.005]),
      (''epsilon'', VFloat 0.02),
      (''q'', VFloat 0.4),
      (''loss'', VStr ''L2''),
      (''optimizer'', VStr ''Adam''),
      (''lr'', VFloat 0.0004),
      (''momentum'', VFloat 0.0004),
      (''beta'', VFloat 0.99),
      (''weight_decay'', VFloat 0.0004),
      (''total_step'', VInt 200000),
      (''log_dir'', VStr (''train_log/'' @ stamp)),
      (''summary_interval'', VInt 100),
      (''log_interval'', VInt 100),
      (''checkpoint_interval'', VInt 100),
      (''max_output'', VInt 3)]"

definition pred_parser :: "(string \<times> val) list" where
  "pred_parser =
     [(''func'', VFunc FnPred),
      (''input'', VNone),
      (''output'', VStr ''output.flo''),
      (''load'', VNone)]"

definition test_parser :: "(string \<times> val) list" where
  "test_parser = [(''func'', VFunc FnTest), (''load'', VNone)]"

text \<open>The subcommands as registered with \<^verbatim>\<open>modes.add_parser\<close>.\<close>

definition modes :: "string \<Rightarrow> (string \<times> (string \<times> val) list) list" where
  "modes stamp =
     [(''train'', train_parser stamp), (''pred'', pred_parser), (''eval'', test_parser)]"

text \<open>
  A command line after tokenising and type conversion: the options given before the
  mode name, the mode name if any, and the options given after it, each as
  (destination, value).
\<close>

record cmdline =
  public_opts :: "(string \<times> val) list"
  mode :: "string option"
  mode_opts :: "(string \<times> val) list"

text \<open>
  \<^verbatim>\<open>parser.parse_args()\<close>. An option no parser in scope registers, or an unknown mode
  name, ends the process (SystemExit). Without a mode name the namespace holds the
  public options and \<open>subparser_name = None\<close>. With one it holds the public options,
  the options and defaults of that subparser and nothing of the other subparsers.
\<close>

definition parse_args :: "string \<Rightarrow> cmdline \<Rightarrow> error + namespace" where
  "parse_args stamp cl =
     (if \<not> set (map fst (public_opts cl)) \<subseteq> set (map fst public_parser) then Inl SystemExit
      else case mode cl of
        None \<Rightarrow>
          if mode_opts cl \<noteq> [] then Inl SystemExit
          else Inr (map_of (public_opts cl @ public_parser @ [(''subparser_name'', VNone)]))
      | Some m \<Rightarrow>
          (case map_of (modes stamp) m of
             None \<Rightarrow> Inl SystemExit
           | Some sub \<Rightarrow>
               if \<not> set (map fst (mode_opts cl)) \<subseteq> set (map fst sub) - {''func''}
               then Inl SystemExit
               else Inr (map_of (mode_opts cl @ public_opts cl @ sub @ public_parser
                                  @ [(''subparser_name'', VStr m)]))))"

section \<open>Collaborators, events and run state\<close>

text \<open>An image as \<^verbatim>\<open>imageio\<close> returns it: rows \<open>\<times>\<close> columns \<open>\<times>\<close> channels.\<close>

record image =
  rows :: nat
  cols :: nat
  chans :: nat
  pix :: "nat \<Rightarrow> nat \<Rightarrow> nat \<Rightarrow> real"

text \<open>
  A batch from the loader. \<^verbatim>\<open>data[0]\<close> is given by its two frames (the result of
  the split along dimension 2 and the squeeze), \<^verbatim>\<open>target[0]\<close> is the flow.
\<close>

record batch =
  src_img :: tensor
  tgt_img :: tensor
  flow_gt :: tensor

text \<open>The two calls of \<^verbatim>\<open>cv2.resize\<close> in \<^verbatim>\<open>pred\<close>: with \<open>dst = resize_shape\<close>, or with \<open>fx = fy = resize_scale\<close>.\<close>

datatype resize_call = ByDst val | ByScale val

text \<open>What the program does to the outside, in order.\<close>

datatype event =
    Dispatch mode_fn
  | BuildModel
  | LoadState
  | Imread
  | Resize resize_call
  | Forward
  | ZeroGrad
  | PrintLoss real
  | Backward
  | OptStep
  | ScalarL1 nat real nat
  | ScalarL2 nat real nat
  | ScalarLoss real nat
  | ImageLevel nat nat
  | ImagePair nat
  | Checkpoint nat
  | ConsoleLog nat real
  | SaveFlow
  | WriteImage
  | ShowPlot

text \<open>
  The code outside \<^verbatim>\<open>main.py\<close>, as parameters. A result \<open>None\<close> or \<open>False\<close> is a
  failure inside the collaborator. The network's output depends on the arguments it
  was built with and, in training, on the number of optimizer updates applied so
  far. The loader hands out \<open>loader_len\<close> batches per iterator; \<open>loader_batch k i\<close> is batch
  \<open>i\<close> of the \<open>k\<close>-th iterator created (each has its own shuffle). \<open>vis_flow\<close> draws
  one chunk of a flow tensor; \<open>scale_resize s img\<close> is the result of
  \<^verbatim>\<open>cv2.resize(img, dsize = (0,0), fx = s, fy = s)\<close>.
\<close>

record env =
  net_ok :: "namespace \<Rightarrow> bool"
  net_forward :: "namespace \<Rightarrow> nat \<Rightarrow> tensor \<Rightarrow> tensor \<Rightarrow> (tensor \<times> tensor list) option"
  datasets_ok :: "namespace \<Rightarrow> bool"
  loader_len :: nat
  loader_batch :: "nat \<Rightarrow> nat \<Rightarrow> batch"
  L1loss :: "tensor \<Rightarrow> tensor \<Rightarrow> real option"
  L2loss :: "tensor \<Rightarrow> tensor \<Rightarrow> real option"
  training_loss :: "namespace \<Rightarrow> tensor list \<Rightarrow> tensor list \<Rightarrow> real option"
  robust_training_loss :: "namespace \<Rightarrow> tensor list \<Rightarrow> tensor list \<Rightarrow> real option"
  torch_device :: "val \<Rightarrow> val option"
  load_ok :: "val \<Rightarrow> bool"
  imread :: "val \<Rightarrow> image option"
  scale_resize :: "val \<Rightarrow> image \<Rightarrow> image option"
  vis_flow :: "tensor \<Rightarrow> image option"
  pred_forward :: "namespace \<Rightarrow> tensor \<Rightarrow> tensor \<Rightarrow> (tensor \<times> tensor list) option"

text \<open>
  The state of a training run: what is left of the current epoch iterator, how many
  iterators have been created, how many optimizer updates have been applied, and the
  events so far.
\<close>

record tstate =
  data_iter :: "batch list"
  epochs :: nat
  updates :: nat
  trace :: "event list"

definition emit :: "event \<Rightarrow> tstate \<Rightarrow> tstate" where
  "emit e st = st\<lparr>trace := trace st @ [e]\<rparr>"

section \<open>The training loop (train, lines 128-269)\<close>

text \<open>\<^verbatim>\<open>data_iter = iter(train_loader)\<close>.\<close>

definition new_iter :: "env \<Rightarrow> tstate \<Rightarrow> tstate" where
  "new_iter env st =
     st\<lparr>data_iter := map (loader_batch env (epochs st)) [0..<loader_len env],
        epochs := Suc (epochs st)\<rparr>"

text \<open>
  Lines 179-183: \<^verbatim>\<open>if (step) % iter_per_epoch == 0: data_iter = iter(train_loader)\<close>,
  then \<^verbatim>\<open>next(data_iter)\<close>, with \<^verbatim>\<open>iter_per_epoch = len(train_loader)\<close>.
\<close>

definition acquire :: "env \<Rightarrow> nat \<Rightarrow> tstate \<Rightarrow> tstate \<times> (error + batch)" where
  "acquire env step st =
     (if loader_len env = 0 then (st, Inl ZeroDivisionError)
      else let st1 = (if step mod loader_len env = 0 then new_iter env st else st)
           in case data_iter st1 of
                [] \<Rightarrow> (st1, Inl StopIteration)
              | b # rest \<Rightarrow> (st1\<lparr>data_iter := rest\<rparr>, Inr b))"

text \<open>Lines 157-158 and 176-183 alone: the batches pulled over the steps \<open>step, step + 1, ...\<close>.\<close>

fun pull_loop :: "env \<Rightarrow> nat \<Rightarrow> nat \<Rightarrow> tstate \<Rightarrow> tstate \<times> (error + batch list)" where
  "pull_loop env step 0 st = (st, Inr [])"
| "pull_loop env step (Suc k) st =
     (case acquire env step st of
        (st1, Inl e) \<Rightarrow> (st1, Inl e)
      | (st1, Inr b) \<Rightarrow>
          (case pull_loop env (Suc step) k st1 of
             (st2, Inl e) \<Rightarrow> (st2, Inl e)
           | (st2, Inr bs) \<Rightarrow> (st2, Inr (b # bs))))"

text \<open>Lines 192-201, for both frames, under \<^verbatim>\<open>if args.input_norm\<close>.\<close>

definition normalise_pair :: "val \<Rightarrow> tensor \<Rightarrow> tensor \<Rightarrow> error + tensor \<times> tensor" where
  "normalise_pair flag src tgt =
     (if truthy flag then
        (case input_norm src of
           Inl e \<Rightarrow> Inl e
         | Inr s \<Rightarrow> (case input_norm tgt of Inl e \<Rightarrow> Inl e | Inr t \<Rightarrow> Inr (s, t)))
      else Inr (src, tgt))"

text \<open>
  Lines 221-228. The result \<open>None\<close> is the case where no branch binds \<^verbatim>\<open>loss\<close>.
\<close>

definition compute_loss ::
  "env \<Rightarrow> namespace \<Rightarrow> tensor \<Rightarrow> tensor \<Rightarrow> tensor list \<Rightarrow> tensor list \<Rightarrow> error + real option" where
  "compute_loss env args gt output_flow flow_pyramid gt_pyramid =
     (case getattr args ''loss'' of
        Inl e \<Rightarrow> Inl e
      | Inr l \<Rightarrow>
          if l = VStr ''L1'' then
            (case L1loss env gt output_flow of None \<Rightarrow> Inl ExternalError | Some v \<Rightarrow> Inr (Some v))
          else if l = VStr ''PyramidL1'' then
            (case robust_training_loss env args flow_pyramid gt_pyramid of
               None \<Rightarrow> Inl ExternalError | Some v \<Rightarrow> Inr (Some v))
          else if l = VStr ''L2'' then
            (case L2loss env gt output_flow of None \<Rightarrow> Inl ExternalError | Some v \<Rightarrow> Inr (Some v))
          else if l = VStr ''PyramidL2'' then
            (case training_loss env args flow_pyramid gt_pyramid of
               None \<Rightarrow> Inl ExternalError | Some v \<Rightarrow> Inr (Some v))
          else Inr None)"

text \<open>
  Lines 247-249: \<^verbatim>\<open>for layer_idx, (flow, gt) in enumerate(zip(flow_pyramid, flow_gt_pyramid))\<close>,
  one L1 and one L2 scalar per pair.
\<close>

fun level_scalars :: "env \<Rightarrow> nat \<Rightarrow> nat \<Rightarrow> (tensor \<times> tensor) list \<Rightarrow> tstate \<Rightarrow> tstate \<times> error option" where
  "level_scalars env step idx [] st = (st, None)"
| "level_scalars env step idx ((flow, gt) # rest) st =
     (case L1loss env flow gt of
        None \<Rightarrow> (st, Some ExternalError)
      | Some a \<Rightarrow>
          (case L2loss env flow gt of
             None \<Rightarrow> (emit (ScalarL1 idx a step) st, Some ExternalError)
           | Some b \<Rightarrow>
               level_scalars env step (Suc idx) rest
                 (emit (ScalarL2 idx b step) (emit (ScalarL1 idx a step) st))))"

text \<open>
  \<^verbatim>\<open>np.split(np.array(t.data).transpose(0,2,3,1), B, axis = 0)\<close>: \<open>B\<close> chunks along the
  batch axis. \<^verbatim>\<open>np.split\<close> computes \<open>N % B\<close> first, so \<open>B = 0\<close> is a ZeroDivisionError,
  and an uneven division is a ValueError.
\<close>

definition np_split :: "tensor \<Rightarrow> nat \<Rightarrow> error + tensor list" where
  "np_split t B =
     (if B = 0 then Inl ZeroDivisionError
      else if nB t mod B \<noteq> 0 then Inl ValueError
      else Inr (map (\<lambda>k. t\<lparr>nB := nB t div B, px := \<lambda>b. px t (k * (nB t div B) + b)\<rparr>) [0..<B]))"

text \<open>\<^verbatim>\<open>[vis_flow(i.squeeze()) for i in chunks]\<close>.\<close>

fun vis_all :: "env \<Rightarrow> tensor list \<Rightarrow> error + image list" where
  "vis_all env [] = Inr []"
| "vis_all env (c # cs) =
     (case vis_flow env c of
        None \<Rightarrow> Inl ExternalError
      | Some p \<Rightarrow> (case vis_all env cs of Inl e \<Rightarrow> Inl e | Inr ps \<Rightarrow> Inr (p # ps)))"

text \<open>
  \<^verbatim>\<open>min(B, args.max_output)\<close> used as a slice bound: the second argument is returned
  when it is smaller, and only an integer can bound a slice.
\<close>

fun min_bound :: "nat \<Rightarrow> val \<Rightarrow> error + int" where
  "min_bound B (VInt m) = Inr (min (int B) m)"
| "min_bound B (VBool b) = Inr (min (int B) (if b then 1 else 0))"
| "min_bound B (VFloat r) = (if r < real B then Inl TypeError else Inr (int B))"
| "min_bound B v = Inl TypeError"

text \<open>\<^verbatim>\<open>xs[:m]\<close>.\<close>

definition py_take :: "int \<Rightarrow> 'a list \<Rightarrow> 'a list" where
  "py_take m xs = (if m < 0 then take (nat (int (length xs) + m)) xs else take (nat m) xs)"

text \<open>
  \<^verbatim>\<open>np.concatenate([a, b], axis = 1)\<close> on two pictures: side by side; every extent
  but the width must agree, else ValueError.
\<close>

definition concat_axis1 :: "image \<Rightarrow> image \<Rightarrow> error + image" where
  "concat_axis1 a b =
     (if rows a \<noteq> rows b \<or> chans a \<noteq> chans b then Inl ValueError
      else Inr \<lparr>rows = rows a, cols = cols a + cols b, chans = chans a,
                pix = \<lambda>i j k. if j < cols a then pix a i j k else pix b i (j - cols a) k\<rparr>)"

text \<open>\<^verbatim>\<open>[np.concatenate([i,j], axis = 1) for i,j in zip(flow_vis, flow_gt_vis)]\<close>.\<close>

fun concat_pairs :: "(image \<times> image) list \<Rightarrow> error + image list" where
  "concat_pairs [] = Inr []"
| "concat_pairs ((a, b) # rest) =
     (case concat_axis1 a b of
        Inl e \<Rightarrow> Inl e
      | Inr c \<Rightarrow> (case concat_pairs rest of Inl e \<Rightarrow> Inl e | Inr cs \<Rightarrow> Inr (c # cs)))"

text \<open>
  Lines 258 and 259, the pictures of one pyramid level: split into \<open>B\<close> chunks, draw
  every chunk, keep the first \<^verbatim>\<open>min(B, args.max_output)\<close>.
\<close>

definition level_pictures :: "env \<Rightarrow> namespace \<Rightarrow> nat \<Rightarrow> tensor \<Rightarrow> error + image list" where
  "level_pictures env args B t =
     (case np_split t B of
        Inl e \<Rightarrow> Inl e
      | Inr chunks \<Rightarrow>
          (case vis_all env chunks of
             Inl e \<Rightarrow> Inl e
           | Inr pics \<Rightarrow>
               (case getattr args ''max_output'' of
                  Inl e \<Rightarrow> Inl e
                | Inr m \<Rightarrow>
                    (case min_bound B m of
                       Inl e \<Rightarrow> Inl e
                     | Inr n \<Rightarrow> Inr (py_take n pics)))))"

text \<open>
  Lines 257-260: for every zipped pair, the pictures of the predicted level and of
  the ground-truth level are put side by side and handed to the logger.
\<close>

fun level_images ::
  "env \<Rightarrow> namespace \<Rightarrow> nat \<Rightarrow> nat \<Rightarrow> nat \<Rightarrow> (tensor \<times> tensor) list \<Rightarrow> tstate \<Rightarrow> tstate \<times> error option" where
  "level_images env args step B idx [] st = (st, None)"
| "level_images env args step B idx ((flow, gt) # rest) st =
     (case level_pictures env args B flow of
        Inl e \<Rightarrow> (st, Some e)
      | Inr flow_vis \<Rightarrow>
          (case level_pictures env args B gt of
             Inl e \<Rightarrow> (st, Some e)
           | Inr flow_gt_vis \<Rightarrow>
               (case concat_pairs (zip flow_vis flow_gt_vis) of
                  Inl e \<Rightarrow> (st, Some e)
                | Inr pics \<Rightarrow>
                    level_images env args step B (Suc idx) rest (emit (ImageLevel idx step) st))))"

text \<open>\<^verbatim>\<open>i.squeeze(0)\<close> on a chunk of frames: the batch axis must have extent 1.\<close>

definition squeeze0 :: "tensor \<Rightarrow> error + image" where
  "squeeze0 t =
     (if nB t \<noteq> 1 then Inl ValueError
      else Inr \<lparr>rows = nH t, cols = nW t, chans = nC t, pix = \<lambda>i j k. px t 0 k i j\<rparr>)"

fun side_by_side :: "(tensor \<times> tensor) list \<Rightarrow> error + image list" where
  "side_by_side [] = Inr []"
| "side_by_side ((i, j) # rest) =
     (case squeeze0 i of
        Inl e \<Rightarrow> Inl e
      | Inr a \<Rightarrow>
          (case squeeze0 j of
             Inl e \<Rightarrow> Inl e
           | Inr b \<Rightarrow>
               (case concat_axis1 a b of
                  Inl e \<Rightarrow> Inl e
                | Inr c \<Rightarrow> (case side_by_side rest of Inl e \<Rightarrow> Inl e | Inr cs \<Rightarrow> Inr (c # cs)))))"

text \<open>Line 262, the pictures of the frame pairs.\<close>

definition frame_pictures :: "nat \<Rightarrow> tensor \<Rightarrow> tensor \<Rightarrow> error + image list" where
  "frame_pictures B src tgt =
     (case np_split src B of
        Inl e \<Rightarrow> Inl e
      | Inr ss \<Rightarrow>
          (case np_split tgt B of
             Inl e \<Rightarrow> Inl e
           | Inr ts \<Rightarrow> side_by_side (zip ss ts)))"

text \<open>
  Lines 243-262, the body of \<^verbatim>\<open>if step % args.summary_interval == 0\<close>, with
  \<^verbatim>\<open>B = flow_pyramid[0].size(0)\<close>.
\<close>

definition summaries ::
  "env \<Rightarrow> namespace \<Rightarrow> nat \<Rightarrow> tensor \<Rightarrow> tensor \<Rightarrow> tensor list \<Rightarrow> tensor list \<Rightarrow> real \<Rightarrow> tstate
   \<Rightarrow> tstate \<times> error option" where
  "summaries env args step src tgt flow_pyramid gt_pyramid loss st =
     (case level_scalars env step 0 (zip flow_pyramid gt_pyramid) st of
        (st1, Some e) \<Rightarrow> (st1, Some e)
      | (st1, None) \<Rightarrow>
          (case flow_pyramid of
             [] \<Rightarrow> (emit (ScalarLoss loss step) st1, Some IndexError)
           | p0 # ps \<Rightarrow>
               (case level_images env args step (nB p0) 0 (zip flow_pyramid gt_pyramid)
                       (emit (ScalarLoss loss step) st1) of
                  (st2, Some e) \<Rightarrow> (st2, Some e)
                | (st2, None) \<Rightarrow>
                    (case frame_pictures (nB p0) src tgt of
                       Inl e \<Rightarrow> (st2, Some e)
                     | Inr pics \<Rightarrow> (emit (ImagePair step) st2, None)))))"

text \<open>Lines 243-269: summaries, checkpoint and console log, each on its own interval.\<close>

definition report ::
  "env \<Rightarrow> namespace \<Rightarrow> nat \<Rightarrow> tensor \<Rightarrow> tensor \<Rightarrow> tensor list \<Rightarrow> tensor list \<Rightarrow> real \<Rightarrow> tstate
   \<Rightarrow> tstate \<times> error option" where
  "report env args step src tgt flow_pyramid gt_pyramid loss st =
     (case get_int args ''summary_interval'' of
        Inl e \<Rightarrow> (st, Some e)
      | Inr si \<Rightarrow>
          if si = 0 then (st, Some ZeroDivisionError)
          else
            (case (if int step mod si = 0
                   then summaries env args step src tgt flow_pyramid gt_pyramid loss st
                   else (st, None)) of
               (st1, Some e) \<Rightarrow> (st1, Some e)
             | (st1, None) \<Rightarrow>
                 (case get_int args ''checkpoint_interval'' of
                    Inl e \<Rightarrow> (st1, Some e)
                  | Inr ci \<Rightarrow>
                      if ci = 0 then (st1, Some ZeroDivisionError)
                      else
                        (let st2 = (if int step mod ci = 0 then emit (Checkpoint step) st1 else st1) in
                         case get_int args ''log_interval'' of
                           Inl e \<Rightarrow> (st2, Some e)
                         | Inr li \<Rightarrow>
                             if li = 0 then (st2, Some ZeroDivisionError)
                             else if int step mod li = 0 then
                               (if args ''total_step'' = None
                                then (st2, Some (AttributeError ''total_step''))
                                else (emit (ConsoleLog step loss) st2, None))
                             else (st2, None)))))"

text \<open>Lines 188-269: one step on a batch that passed the size check.\<close>

definition process_batch :: "env \<Rightarrow> namespace \<Rightarrow> nat \<Rightarrow> batch \<Rightarrow> tstate \<Rightarrow> tstate \<times> error option" where
  "process_batch env args step b st =
     (case getattr args ''input_norm'' of
        Inl e \<Rightarrow> (st, Some e)
      | Inr flag \<Rightarrow>
     (case normalise_pair flag (src_img b) (tgt_img b) of
        Inl e \<Rightarrow> (st, Some e)
      | Inr (src, tgt) \<Rightarrow>
     (case get_int args ''num_levels'' of
        Inl e \<Rightarrow> (st, Some e)
      | Inr n \<Rightarrow>
     (case flow_gt_pyramid n (flow_gt b) of
        Inl e \<Rightarrow> (st, Some e)
      | Inr gt_pyramid \<Rightarrow>
     (case net_forward env args (updates st) src tgt of
        None \<Rightarrow> (st, Some ExternalError)
      | Some (output_flow, flow_pyramid) \<Rightarrow>
     (case compute_loss env args (flow_gt b) output_flow flow_pyramid gt_pyramid of
        Inl e \<Rightarrow> (emit Forward st, Some e)
      | Inr None \<Rightarrow> (emit ZeroGrad (emit Forward st), Some (UnboundLocalError ''loss''))
      | Inr (Some loss) \<Rightarrow>
          report env args step src tgt flow_pyramid gt_pyramid loss
            ((emit OptStep (emit Backward (emit (PrintLoss loss) (emit ZeroGrad (emit Forward st)))))
               \<lparr>updates := Suc (updates st)\<rparr>)))))))"

text \<open>\<^verbatim>\<open>src_img.size(0) != args.batch_size\<close>.\<close>

definition size_differs :: "nat \<Rightarrow> val \<Rightarrow> bool" where
  "size_differs n v = (\<not> int_equals (int n) v)"

text \<open>One iteration of \<^verbatim>\<open>for step in range(1, args.total_step + 1)\<close>; \<^verbatim>\<open>continue\<close> at line 187.\<close>

definition train_step :: "env \<Rightarrow> namespace \<Rightarrow> nat \<Rightarrow> tstate \<Rightarrow> tstate \<times> error option" where
  "train_step env args step st =
     (case acquire env step st of
        (st1, Inl e) \<Rightarrow> (st1, Some e)
      | (st1, Inr b) \<Rightarrow>
          (case getattr args ''batch_size'' of
             Inl e \<Rightarrow> (st1, Some e)
           | Inr bs \<Rightarrow>
               if size_differs (nB (src_img b)) bs then (st1, None)
               else process_batch env args step b st1))"

fun train_loop :: "env \<Rightarrow> namespace \<Rightarrow> nat \<Rightarrow> nat \<Rightarrow> tstate \<Rightarrow> tstate \<times> error option" where
  "train_loop env args step 0 st = (st, None)"
| "train_loop env args step (Suc k) st =
     (case train_step env args step st of
        (st1, Some e) \<Rightarrow> (st1, Some e)
      | (st1, None) \<Rightarrow> train_loop env args (Suc step) k st1)"

text \<open>The first attribute of the list that the namespace lacks.\<close>

fun missing_attr :: "namespace \<Rightarrow> string list \<Rightarrow> error option" where
  "missing_attr args [] = None"
| "missing_attr args (k # ks) = (if args k = None then Some (AttributeError k) else missing_attr args ks)"

text \<open>
  Lines 128-176: build the network and move it to \<^verbatim>\<open>args.device\<close>, build the
  datasets, the loaders, the logger and the optimizer (each reads its attributes),
  create the first iterator, run the steps.
\<close>

definition train :: "env \<Rightarrow> namespace \<Rightarrow> tstate \<times> error option" where
  "train env args =
     (let st0 = \<lparr>data_iter = [], epochs = 0, updates = 0, trace = []\<rparr> in
      if \<not> net_ok env args then (st0, Some ExternalError)
      else if args ''device'' = None then (st0, Some (AttributeError ''device''))
      else
        (let st1 = emit BuildModel st0 in
         case missing_attr args [''dataset'', ''dataset_dir'', ''crop_shape'', ''resize_shape'',
                                 ''resize_scale'', ''crop_type''] of
           Some e \<Rightarrow> (st1, Some e)
         | None \<Rightarrow>
             if \<not> datasets_ok env args then (st1, Some ExternalError)
             else
               (case missing_attr args [''batch_size'', ''num_workers'', ''log_dir'', ''optimizer'',
                                        ''lr'', ''weight_decay''] of
                  Some e \<Rightarrow> (st1, Some e)
                | None \<Rightarrow>
                    (case get_int args ''total_step'' of
                       Inl e \<Rightarrow> (new_iter env st1, Some e)
                     | Inr total_step \<Rightarrow> train_loop env args 1 (nat total_step) (new_iter env st1)))))"

section \<open>Inference (pred, lines 273-325)\<close>

text \<open>Unpacking a value into exactly two items, as in \<^verbatim>\<open>a, b = v\<close>.\<close>

fun two_items :: "val \<Rightarrow> error + val \<times> val" where
  "two_items (VList [a, b]) = Inr (a, b)"
| "two_items (VList vs) = Inl ValueError"
| "two_items v = Inl TypeError"

text \<open>A value used as a slice bound.\<close>

fun as_index :: "val \<Rightarrow> error + int" where
  "as_index (VInt k) = Inr k"
| "as_index (VBool b) = Inr (if b then 1 else 0)"
| "as_index v = Inl TypeError"

text \<open>
  \<^verbatim>\<open>a[lo:hi]\<close> on an axis of extent \<open>n\<close>: a negative bound counts from the end, both
  bounds are clipped to the axis; the result is the first index kept and the number
  of indices kept.
\<close>

definition clip_index :: "nat \<Rightarrow> int \<Rightarrow> nat" where
  "clip_index n k = nat (if k < 0 then max (k + int n) 0 else min k (int n))"

definition py_slice :: "nat \<Rightarrow> int \<Rightarrow> int \<Rightarrow> nat \<times> nat" where
  "py_slice n lo hi = (clip_index n lo, clip_index n hi - clip_index n lo)"

text \<open>The class \<^verbatim>\<open>StaticCenterCrop\<close> (lines 284-290): its attributes, \<^verbatim>\<open>__init__\<close> and \<^verbatim>\<open>__call__\<close>.\<close>

record cropper =
  crop_th :: val
  crop_tw :: val
  crop_h :: nat
  crop_w :: nat

definition StaticCenterCrop :: "nat \<times> nat \<Rightarrow> val \<Rightarrow> error + cropper" where
  "StaticCenterCrop image_size crop_size =
     (case two_items crop_size of
        Inl e \<Rightarrow> Inl e
      | Inr (a, b) \<Rightarrow>
          Inr \<lparr>crop_th = a, crop_tw = b, crop_h = fst image_size, crop_w = snd image_size\<rparr>)"

definition crop_call :: "cropper \<Rightarrow> image \<Rightarrow> error + image" where
  "crop_call c img =
     (case as_index (crop_th c) of
        Inl e \<Rightarrow> Inl e
      | Inr th \<Rightarrow>
          (case as_index (crop_tw c) of
             Inl e \<Rightarrow> Inl e
           | Inr tw \<Rightarrow>
               (let rs = py_slice (rows img) ((int (crop_h c) - th) div 2) ((int (crop_h c) + th) div 2);
                    cs = py_slice (cols img) ((int (crop_w c) - tw) div 2) ((int (crop_w c) + tw) div 2)
                in Inr (img\<lparr>rows := snd rs, cols := snd cs,
                            pix := \<lambda>i j k. pix img (fst rs + i) (fst cs + j) k\<rparr>))))"

text \<open>Lines 295-298.\<close>

definition crop_stage :: "namespace \<Rightarrow> image \<Rightarrow> image \<Rightarrow> error + image \<times> image" where
  "crop_stage args src tgt =
     (case getattr args ''crop_shape'' of
        Inl e \<Rightarrow> Inl e
      | Inr shape \<Rightarrow>
          if shape = VNone then Inr (src, tgt)
          else
            (case StaticCenterCrop (rows src, cols src) shape of
               Inl e \<Rightarrow> Inl e
             | Inr cropper \<Rightarrow>
                 (case crop_call cropper src of
                    Inl e \<Rightarrow> Inl e
                  | Inr s \<Rightarrow>
                      (case crop_call cropper tgt of
                         Inl e \<Rightarrow> Inl e
                       | Inr t \<Rightarrow> Inr (s, t)))))"

text \<open>
  The two resizers of lines 300 and 303. \<^verbatim>\<open>cv2.resize(img, dsize = (0,0), dst = shape)\<close>
  names no output size (\<open>dsize\<close> is empty and \<open>fx\<close>, \<open>fy\<close> keep their default 0; \<open>dst\<close> is
  an output buffer, and a list of integers is not one), so OpenCV raises on every image.
  \<^verbatim>\<open>cv2.resize(img, dsize = (0,0), fx = s, fy = s)\<close> is the library's resize.
\<close>

definition cv2_resize :: "env \<Rightarrow> resize_call \<Rightarrow> image \<Rightarrow> error + image" where
  "cv2_resize env call img =
     (case call of
        ByDst shape \<Rightarrow> Inl Cv2Error
      | ByScale scale \<Rightarrow>
          (case scale_resize env scale img of None \<Rightarrow> Inl Cv2Error | Some out \<Rightarrow> Inr out))"

text \<open>\<^verbatim>\<open>src_img, tgt_img = map(resizer, [src_img, tgt_img])\<close>.\<close>

definition resize_pair :: "env \<Rightarrow> resize_call \<Rightarrow> image \<Rightarrow> image \<Rightarrow> event list \<times> (error + image \<times> image)" where
  "resize_pair env call src tgt =
     (case cv2_resize env call src of
        Inl e \<Rightarrow> ([], Inl e)
      | Inr s \<Rightarrow>
          (case cv2_resize env call tgt of
             Inl e \<Rightarrow> ([Resize call], Inl e)
           | Inr t \<Rightarrow> ([Resize call, Resize call], Inr (s, t))))"

text \<open>Lines 299-304: \<^verbatim>\<open>if args.resize_shape is not None: ... elif args.resize_scale is not None: ...\<close>.\<close>

definition resize_stage :: "env \<Rightarrow> namespace \<Rightarrow> image \<Rightarrow> image \<Rightarrow> event list \<times> (error + image \<times> image)" where
  "resize_stage env args src tgt =
     (case getattr args ''resize_shape'' of
        Inl e \<Rightarrow> ([], Inl e)
      | Inr shape \<Rightarrow>
          if shape \<noteq> VNone then resize_pair env (ByDst shape) src tgt
          else
            (case getattr args ''resize_scale'' of
               Inl e \<Rightarrow> ([], Inl e)
             | Inr scale \<Rightarrow>
                 if scale \<noteq> VNone then resize_pair env (ByScale scale) src tgt
                 else ([], Inr (src, tgt))))"

text \<open>Line 282: \<^verbatim>\<open>src_img, tgt_img = map(imageio.imread, args.input)\<close>.\<close>

definition read_inputs :: "env \<Rightarrow> namespace \<Rightarrow> event list \<times> (error + image \<times> image)" where
  "read_inputs env args =
     (case getattr args ''input'' of
        Inl e \<Rightarrow> ([], Inl e)
      | Inr paths \<Rightarrow>
          (case two_items paths of
             Inl e \<Rightarrow> ([], Inl e)
           | Inr (a, b) \<Rightarrow>
               (case imread env a of
                  None \<Rightarrow> ([], Inl ExternalError)
                | Some s \<Rightarrow>
                    (case imread env b of
                       None \<Rightarrow> ([Imread], Inl ExternalError)
                     | Some t \<Rightarrow> ([Imread, Imread], Inr (s, t))))))"

text \<open>Lines 306-311: add a batch axis and move the channels first.\<close>

definition to_tensor :: "image \<Rightarrow> tensor" where
  "to_tensor img = \<lparr>nB = 1, nC = chans img, nH = rows img, nW = cols img,
                    px = \<lambda>b c i j. pix img i j c\<rparr>"

text \<open>
  \<^verbatim>\<open>pred(args)\<close>: the events up to the end or up to the exception, and the exception
  if one was raised.
\<close>

definition pred :: "env \<Rightarrow> namespace \<Rightarrow> event list \<times> error option" where
  "pred env args =
     (if \<not> net_ok env args then ([], Some ExternalError)
      else if args ''device'' = None then ([], Some (AttributeError ''device''))
      else
     (case getattr args ''load'' of
        Inl e \<Rightarrow> ([BuildModel], Some e)
      | Inr path \<Rightarrow>
     if \<not> load_ok env path then ([BuildModel], Some ExternalError)
     else
     (case read_inputs env args of
        (ev1, Inl e) \<Rightarrow> ([BuildModel, LoadState] @ ev1, Some e)
      | (ev1, Inr (src, tgt)) \<Rightarrow>
     (case crop_stage args src tgt of
        Inl e \<Rightarrow> ([BuildModel, LoadState] @ ev1, Some e)
      | Inr (src1, tgt1) \<Rightarrow>
     (case resize_stage env args src1 tgt1 of
        (ev2, Inl e) \<Rightarrow> ([BuildModel, LoadState] @ ev1 @ ev2, Some e)
      | (ev2, Inr (src2, tgt2)) \<Rightarrow>
     (case pred_forward env args (to_tensor src2) (to_tensor tgt2) of
        None \<Rightarrow> ([BuildModel, LoadState] @ ev1 @ ev2, Some ExternalError)
      | Some (output_flow, flow_pyramid) \<Rightarrow>
          if flow_pyramid = [] then ([BuildModel, LoadState] @ ev1 @ ev2 @ [Forward], Some IndexError)
          else
            (case getattr args ''output'' of
               Inl e \<Rightarrow> ([BuildModel, LoadState] @ ev1 @ ev2 @ [Forward], Some e)
             | Inr out \<Rightarrow>
                 ([BuildModel, LoadState] @ ev1 @ ev2 @ [Forward, SaveFlow, WriteImage, ShowPlot],
                  None))))))))"

section \<open>Entry point (main, lines 105-124)\<close>

definition dataset_names :: "string list" where
  "dataset_names = [''FlyingChairs'', ''FlyingThings'', ''SintelFinal'', ''SintelClean'', ''KITTI'']"

text \<open>
  Lines 111-112. The chained comparison reads \<^verbatim>\<open>args.num_levels\<close> only when the two
  lengths agree.
\<close>

definition check_train :: "namespace \<Rightarrow> error option" where
  "check_train args =
     (case getattr args ''weights'' of
        Inl e \<Rightarrow> Some e
      | Inr ws \<Rightarrow>
     (case py_len ws of
        Inl e \<Rightarrow> Some e
      | Inr n_weights \<Rightarrow>
     (case getattr args ''lv_chs'' of
        Inl e \<Rightarrow> Some e
      | Inr chs \<Rightarrow>
     (case py_len chs of
        Inl e \<Rightarrow> Some e
      | Inr n_chs \<Rightarrow>
          if n_weights \<noteq> n_chs then Some AssertionError
          else
            (case getattr args ''num_levels'' of
               Inl e \<Rightarrow> Some e
             | Inr levels \<Rightarrow>
                 if \<not> int_equals n_chs levels then Some AssertionError
                 else
                   (case getattr args ''dataset'' of
                      Inl e \<Rightarrow> Some e
                    | Inr d \<Rightarrow>
                        if d \<in> set (map VStr dataset_names) then None
                        else Some AssertionError))))))"

text \<open>Lines 114-115.\<close>

definition check_pred :: "namespace \<Rightarrow> error option" where
  "check_pred args =
     (case getattr args ''input'' of
        Inl e \<Rightarrow> Some e
      | Inr i \<Rightarrow>
          if i = VNone then Some AssertionError
          else
            (case getattr args ''load'' of
               Inl e \<Rightarrow> Some e
             | Inr l \<Rightarrow> if l = VNone then Some AssertionError else None))"

text \<open>Lines 117-118.\<close>

definition check_test :: "namespace \<Rightarrow> error option" where
  "check_test args =
     (case getattr args ''train'' of
        Inl e \<Rightarrow> Some e
      | Inr t \<Rightarrow>
          if truthy t then Some AssertionError
          else
            (case getattr args ''predict'' of
               Inl e \<Rightarrow> Some e
             | Inr p \<Rightarrow>
                 if truthy p then Some AssertionError
                 else
                   (case getattr args ''load'' of
                      Inl e \<Rightarrow> Some e
                    | Inr l \<Rightarrow> if l = VNone then Some AssertionError else None)))"

text \<open>Lines 110-120.\<close>

definition check_args :: "namespace \<Rightarrow> error option" where
  "check_args args =
     (case getattr args ''subparser_name'' of
        Inl e \<Rightarrow> Some e
      | Inr name \<Rightarrow>
          if name = VStr ''train'' then check_train args
          else if name = VStr ''pred'' then check_pred args
          else if name = VStr ''test'' then check_test args
          else Some (RuntimeError ''use train/predict/test to select a mode''))"

text \<open>
  Line 124, \<^verbatim>\<open>args.func(args)\<close>. \<^verbatim>\<open>test(args, eval_iter)\<close> takes two arguments, so
  calling it with one raises TypeError before its body runs.
\<close>

definition call_func :: "env \<Rightarrow> val \<Rightarrow> namespace \<Rightarrow> event list \<times> error option" where
  "call_func env f args =
     (if f = VFunc FnTrain then
        (case train env args of (st, r) \<Rightarrow> (Dispatch FnTrain # trace st, r))
      else if f = VFunc FnPred then
        (case pred env args of (ev, r) \<Rightarrow> (Dispatch FnPred # ev, r))
      else ([], Some TypeError))"

text \<open>Lines 108-124, on the parsed namespace.\<close>

definition run_args :: "env \<Rightarrow> namespace \<Rightarrow> event list \<times> error option" where
  "run_args env args =
     (case check_args args of
        Some e \<Rightarrow> ([], Some e)
      | None \<Rightarrow>
          (case getattr args ''device'' of
             Inl e \<Rightarrow> ([], Some e)
           | Inr d \<Rightarrow>
               (case torch_device env d of
                  None \<Rightarrow> ([], Some ExternalError)
                | Some dev \<Rightarrow>
                    (case getattr (args(''device'' \<mapsto> dev)) ''func'' of
                       Inl e \<Rightarrow> ([], Some e)
                     | Inr f \<Rightarrow> call_func env f (args(''device'' \<mapsto> dev))))))"

definition main :: "env \<Rightarrow> string \<Rightarrow> cmdline \<Rightarrow> event list \<times> error option" where
  "main env stamp cl =
     (case parse_args stamp cl of
        Inl e \<Rightarrow> ([], Some e)
      | Inr args \<Rightarrow> run_args env args)"

section \<open>Sample collaborators and inputs\<close>

text \<open>
  Concrete inputs on which the definitions above are run: small tensors, a loader of
  two batches per iterator (a full batch of two samples and a partial one), a stub
  network whose pyramid always has two levels (half and full resolution), losses
  that return constants and a drawing routine that returns a blank picture of the
  chunk's height and width.
\<close>

definition demo_tensor :: "nat \<Rightarrow> nat \<Rightarrow> nat \<Rightarrow> nat \<Rightarrow> tensor" where
  "demo_tensor b c h w = \<lparr>nB = b, nC = c, nH = h, nW = w, px = \<lambda>n k i j. real (i + j)\<rparr>"

definition demo_batch :: "nat \<Rightarrow> batch" where
  "demo_batch n =
     \<lparr>src_img = demo_tensor n 3 4 4, tgt_img = demo_tensor n 3 4 4, flow_gt = demo_tensor n 2 4 4\<rparr>"

definition demo_image :: image where
  "demo_image = \<lparr>rows = 4, cols = 6, chans = 3, pix = \<lambda>i j k. real (6 * i + j)\<rparr>"

definition demo_env :: env where
  "demo_env =
     \<lparr>net_ok = \<lambda>args. True,
      net_forward = \<lambda>args u src tgt.
        Some (demo_tensor (nB src) 2 4 4, [demo_tensor (nB src) 2 2 2, demo_tensor (nB src) 2 4 4]),
      datasets_ok = \<lambda>args. True,
      loader_len = 2,
      loader_batch = \<lambda>k i. demo_batch (if i = 0 then 2 else 1),
      L1loss = \<lambda>a b. Some 1,
      L2loss = \<lambda>a b. Some 2,
      training_loss = \<lambda>args p q. Some 3,
      robust_training_loss = \<lambda>args p q. Some 4,
      torch_device = \<lambda>v. Some v,
      load_ok = \<lambda>v. True,
      imread = \<lambda>v. Some demo_image,
      scale_resize = \<lambda>scale img. Some img,
      vis_flow = \<lambda>t. Some \<lparr>rows = nH t, cols = nW t, chans = 3, pix = \<lambda>i j k. 0\<rparr>,
      pred_forward = \<lambda>args src tgt.
        Some (demo_tensor 1 2 (nH src) (nW src), [demo_tensor 1 2 (nH src) (nW src)])\<rparr>"

text \<open>\<^verbatim>\<open>train --dataset FlyingChairs --dataset_dir data --batch_size 2 --num_levels 1\<close>
  \<^verbatim>\<open>--lv_chs 16 --weights 1.0 --total_step 3 --summary_interval 1\<close>, and its namespace.\<close>

definition demo_train_cmd :: cmdline where
  "demo_train_cmd =
     \<lparr>public_opts = [],
      mode = Some ''train'',
      mode_opts = [(''dataset'', VStr ''FlyingChairs''), (''dataset_dir'', VStr ''data''),
                   (''batch_size'', VInt 2), (''num_levels'', VInt 1), (''lv_chs'', VList [VInt 16]),
                   (''weights'', VList [VFloat 1]), (''total_step'', VInt 3),
                   (''summary_interval'', VInt 1)]\<rparr>"

definition demo_train_args :: namespace where
  "demo_train_args =
     map_of (mode_opts demo_train_cmd @ train_parser [] @ public_parser
             @ [(''subparser_name'', VStr ''train'')])"


text \<open>\<^verbatim>\<open>pred -i a.png b.png --load net.pkl\<close> and \<^verbatim>\<open>eval --load net.pkl\<close>.\<close>

definition demo_pred_cmd :: cmdline where
  "demo_pred_cmd =
     \<lparr>public_opts = [],
      mode = Some ''pred'',
      mode_opts = [(''input'', VList [VStr ''a.png'', VStr ''b.png'']), (''load'', VStr ''net.pkl'')]\<rparr>"


definition demo_eval_cmd :: cmdline where
  "demo_eval_cmd =
     \<lparr>public_opts = [], mode = Some ''eval'', mode_opts = [(''load'', VStr ''net.pkl'')]\<rparr>"


text \<open>
  A flow field of a single pixel, and a training state in which the current iterator
  still holds the full and the partial batch.
\<close>

definition demo_pixel_flow :: tensor where
  "demo_pixel_flow = demo_tensor 1 2 1 1"


section \<open>The ground-truth pyramid\<close>

lemma avg_pool2d_ok:
  "2 \<le> nH x \<Longrightarrow> 2 \<le> nW x \<Longrightarrow>
   \<exists>y. avg_pool2d x = Inr y \<and> nH y = nH x div 2 \<and> nW y = nW x div 2"
  by (simp add: avg_pool2d_def)

lemma two_le_of_pow: "2 ^ Suc n \<le> (h::nat) \<Longrightarrow> 2 \<le> h"
proof -
  assume a: "2 ^ Suc n \<le> h"
  have "(1::nat) \<le> 2 ^ n" by simp
  then have "(2::nat) \<le> 2 ^ Suc n" by simp
  then show ?thesis using a by (rule order_trans)
qed

lemma pow_le_half: "2 ^ Suc n \<le> (h::nat) \<Longrightarrow> 2 ^ n \<le> h div 2"
  by simp

lemma gt_pyramid_loop_levels:
  "2 ^ n \<le> nH x \<Longrightarrow> 2 ^ n \<le> nW x \<Longrightarrow>
   \<exists>ys. gt_pyramid_loop n x pyr = Inr (ys @ pyr) \<and> length ys = n \<and>
        (\<forall>i<n. nH (ys ! i) = nH x div 2 ^ (n - i) \<and> nW (ys ! i) = nW x div 2 ^ (n - i)) \<and>
        (0 < n \<longrightarrow> avg_pool2d x = Inr (ys ! (n - 1))) \<and>
        (\<forall>i. Suc i < n \<longrightarrow> avg_pool2d (ys ! Suc i) = Inr (ys ! i))"
proof (induction n arbitrary: x pyr)
  case 0
  then show ?case by simp
next
  case (Suc n)
  have h2: "2 \<le> nH x" and w2: "2 \<le> nW x"
    using Suc.prems by (blast dest: two_le_of_pow)+
  from avg_pool2d_ok [OF h2 w2] obtain y where
    y: "avg_pool2d x = Inr y" and yh: "nH y = nH x div 2" and yw: "nW y = nW x div 2"
    by blast
  have "2 ^ n \<le> nH y" "2 ^ n \<le> nW y"
    using Suc.prems yh yw by simp_all
  from Suc.IH [OF this, of "y # pyr"] obtain zs where
    zs: "gt_pyramid_loop n y (y # pyr) = Inr (zs @ y # pyr)" and len: "length zs = n" and
    dims: "\<forall>i<n. nH (zs ! i) = nH y div 2 ^ (n - i) \<and> nW (zs ! i) = nW y div 2 ^ (n - i)" and
    top: "0 < n \<longrightarrow> avg_pool2d y = Inr (zs ! (n - 1))" and
    chain: "\<forall>i. Suc i < n \<longrightarrow> avg_pool2d (zs ! Suc i) = Inr (zs ! i)"
    by blast
  let ?ys = "zs @ [y]"
  have 1: "gt_pyramid_loop (Suc n) x pyr = Inr (?ys @ pyr)"
    using y zs by simp
  have 2: "length ?ys = Suc n" using len by simp
  have 3: "nH (?ys ! i) = nH x div 2 ^ (Suc n - i) \<and> nW (?ys ! i) = nW x div 2 ^ (Suc n - i)"
    if "i < Suc n" for i
  proof (cases "i < n")
    case True
    then have "Suc n - i = Suc (n - i)" by simp
    with True dims len yh yw show ?thesis
      by (simp add: nth_append div_mult2_eq)
  next
    case False
    with that have "i = n" by simp
    with len yh yw show ?thesis by (simp add: nth_append)
  qed
  have 4: "avg_pool2d x = Inr (?ys ! (Suc n - 1))"
    using y len by (simp add: nth_append)
  have 5: "avg_pool2d (?ys ! Suc i) = Inr (?ys ! i)" if "Suc i < Suc n" for i
  proof (cases "Suc i < n")
    case True
    with chain len show ?thesis by (simp add: nth_append)
  next
    case False
    with that have n: "n = Suc i" by simp
    then have "avg_pool2d y = Inr (zs ! i)" using top by simp
    with n len show ?thesis by (simp add: nth_append)
  qed
  from 1 2 3 4 5 show ?case by blast
qed

lemma gt_pyramid_loop_refused:
  "0 < n \<Longrightarrow> nH x < 2 ^ n \<or> nW x < 2 ^ n \<Longrightarrow> \<exists>e. gt_pyramid_loop n x pyr = Inl e"
proof (induction n arbitrary: x pyr)
  case 0
  then show ?case by simp
next
  case (Suc n)
  show ?case
  proof (cases "nH x < 2 \<or> nW x < 2")
    case True
    then show ?thesis by (simp add: avg_pool2d_def)
  next
    case False
    then obtain y where y: "avg_pool2d x = Inr y" and yh: "nH y = nH x div 2" and yw: "nW y = nW x div 2"
      using avg_pool2d_ok [of x] by auto
    have n: "0 < n"
    proof (rule ccontr)
      assume "\<not> 0 < n"
      with Suc.prems(2) False show False by simp
    qed
    have "nH y < 2 ^ n \<or> nW y < 2 ^ n"
      using Suc.prems(2) yh yw by auto
    from Suc.IH [OF n this, of "y # pyr"] y show ?thesis by simp
  qed
qed

lemma halved_less: "0 < (h::nat) \<Longrightarrow> 0 < k \<Longrightarrow> h div 2 ^ k < h"
proof (rule div_less_dividend)
  assume "0 < k"
  then show "1 < (2::nat) ^ k" by (intro one_less_power) simp_all
qed

text \<open>
  C1 (as amended). For a ground-truth flow field of height \<open>H\<close> and width \<open>W\<close> and a depth
  \<open>N \<ge> 1\<close> with \<open>2 ^ N \<le> H\<close> and \<open>2 ^ N \<le> W\<close>, the pyramid built in the training loop has
  exactly \<open>N\<close> levels, coarsest first; level \<open>i\<close> has extents \<open>H div 2 ^ (N - i)\<close> by
  \<open>W div 2 ^ (N - i)\<close>; the finest level is one pooling of the field, every other level
  is one pooling of the level after it, and the field itself is not a level.
\<close>

theorem gt_pyramid_levels:
  assumes N: "1 \<le> N" and H: "2 ^ N \<le> nH x" and W: "2 ^ N \<le> nW x"
  shows "\<exists>p. flow_gt_pyramid (int N) x = Inr p \<and> length p = N \<and>
             (\<forall>i<N. nH (p ! i) = nH x div 2 ^ (N - i) \<and> nW (p ! i) = nW x div 2 ^ (N - i)) \<and>
             avg_pool2d x = Inr (p ! (N - 1)) \<and>
             (\<forall>i. Suc i < N \<longrightarrow> avg_pool2d (p ! Suc i) = Inr (p ! i)) \<and>
             x \<notin> set p"
proof -
  from gt_pyramid_loop_levels [OF H W, of "[]"] obtain p where
    run: "gt_pyramid_loop N x [] = Inr p" and len: "length p = N" and
    dims: "\<forall>i<N. nH (p ! i) = nH x div 2 ^ (N - i) \<and> nW (p ! i) = nW x div 2 ^ (N - i)" and
    top: "0 < N \<longrightarrow> avg_pool2d x = Inr (p ! (N - 1))" and
    chain: "\<forall>i. Suc i < N \<longrightarrow> avg_pool2d (p ! Suc i) = Inr (p ! i)"
    by auto
  have pos: "0 < nH x"
  proof -
    have "(0::nat) < 2 ^ N" by simp
    then show ?thesis using H by (rule less_le_trans)
  qed
  have "x \<notin> set p"
  proof
    assume "x \<in> set p"
    then obtain i where i: "i < N" and xi: "p ! i = x"
      using len by (auto simp: in_set_conv_nth)
    from dims i xi have "nH x = nH x div 2 ^ (N - i)" by auto
    moreover from i pos have "nH x div 2 ^ (N - i) < nH x" by (intro halved_less) simp_all
    ultimately show False by simp
  qed
  with run len dims top chain N show ?thesis
    by (simp add: flow_gt_pyramid_def)
qed

theorem gt_pyramid_levels_witness:
  "(1::nat) \<le> 2 \<and> (2::nat) ^ 2 \<le> 4 \<and>
   (\<exists>p. flow_gt_pyramid 2 \<lparr>nB = 1, nC = 2, nH = 4, nW = 4, px = \<lambda>b c i j. real (i + j)\<rparr> = Inr p \<and>
        length p = 2 \<and> nH (p ! 0) = 1 \<and> nW (p ! 0) = 1 \<and> nH (p ! 1) = 2 \<and> nW (p ! 1) = 2)"
proof -
  let ?x = "\<lparr>nB = 1, nC = 2, nH = 4, nW = 4, px = \<lambda>b c i j. real (i + j)\<rparr>"
  have a: "(1::nat) \<le> 2" by simp
  have b: "2 ^ 2 \<le> nH ?x" by simp
  have c: "2 ^ 2 \<le> nW ?x" by simp
  from gt_pyramid_levels [OF a b c] obtain p where
    p: "flow_gt_pyramid (int 2) ?x = Inr p" "length p = 2"
       "\<forall>i<2. nH (p ! i) = nH ?x div 2 ^ (2 - i) \<and> nW (p ! i) = nW ?x div 2 ^ (2 - i)"
    by blast
  from p(3) have "nH (p ! 0) = 1 \<and> nW (p ! 0) = 1" by (simp del: One_nat_def)
  moreover from p(3) have "nH (p ! 1) = 2 \<and> nW (p ! 1) = 2" by simp
  ultimately show ?thesis using p(1,2) by auto
qed

text \<open>
  On a field of one pixel and depth 1 the first pooling is refused: the loop raises
  and no pyramid is built.
\<close>

theorem gt_pyramid_small_field_counterexample:
  "flow_gt_pyramid 1 demo_pixel_flow = Inl (RuntimeError ''Output size is too small'')"
  by (simp add: flow_gt_pyramid_def avg_pool2d_def demo_pixel_flow_def demo_tensor_def)

section \<open>Input normalisation\<close>

text \<open>
  C4. On a one-pixel image whose channels hold 0, 1, 0, the first output channel of
  the normalisation is \<open>(1 - 0.485) / 0.229\<close>, computed from input channel 1, and not
  \<open>(0 - 0.485) / 0.229\<close>, the value the per-channel rule gives for input channel 0.
\<close>

theorem input_norm_red_reads_green:
  "\<exists>out. input_norm \<lparr>nB = 1, nC = 3, nH = 1, nW = 1, px = \<lambda>b c i j. if c = 1 then 1 else 0\<rparr> = Inr out \<and>
         px out 0 0 0 0 = (1 - 0.485) / 0.229 \<and>
         px out 0 0 0 0 \<noteq> (0 - 0.485) / 0.229"
  by (simp add: input_norm_def)

lemma input_norm_channels:
  "3 \<le> nC img \<Longrightarrow>
   \<exists>out. input_norm img = Inr out \<and>
     px out b 0 i j = (px img b 1 i j - 0.485) / 0.229 \<and>
     px out b 1 i j = (px img b 1 i j - 0.456) / 0.224 \<and>
     px out b 2 i j = (px img b 2 i j - 0.406) / 0.225"
  by (simp add: input_norm_def Let_def)

section \<open>The step loop\<close>

lemma acquire_keeps:
  "acquire env step st = (st1, r) \<Longrightarrow> trace st1 = trace st \<and> updates st1 = updates st"
  by (auto simp: acquire_def new_iter_def Let_def split: if_splits list.splits)

lemma acquire_succeeds:
  assumes n: "0 < loader_len env"
    and inv: "step mod loader_len env = 0 \<or> loader_len env \<le> length (data_iter st) + step mod loader_len env"
  shows "\<exists>b st1. acquire env step st = (st1, Inr b) \<and>
           (Suc step mod loader_len env = 0 \<or>
            loader_len env \<le> length (data_iter st1) + Suc step mod loader_len env) \<and>
           epochs st1 = (if step mod loader_len env = 0 then Suc (epochs st) else epochs st)"
proof (cases "step mod loader_len env = 0")
  case True
  from n obtain m where m: "loader_len env = Suc m" by (cases "loader_len env") auto
  have "length (data_iter (new_iter env st)) = Suc m"
    by (simp add: new_iter_def m del: upt_Suc)
  then obtain b rest where it: "data_iter (new_iter env st) = b # rest" and rest: "length rest = m"
    by (cases "data_iter (new_iter env st)") auto
  let ?st1 = "(new_iter env st)\<lparr>data_iter := rest\<rparr>"
  have acq: "acquire env step st = (?st1, Inr b)"
    using True n it by (simp add: acquire_def)
  have inv1: "Suc step mod loader_len env = 0 \<or>
              loader_len env \<le> length (data_iter ?st1) + Suc step mod loader_len env"
    using True m rest by (simp add: mod_Suc)
  have ep: "epochs ?st1 = Suc (epochs st)" by (simp add: new_iter_def)
  from acq inv1 ep True show ?thesis by (intro exI [of _ b] exI [of _ ?st1]) simp
next
  case False
  have lt: "step mod loader_len env < loader_len env" using n by simp
  with inv False have "0 < length (data_iter st)" by linarith
  then obtain b rest where br: "data_iter st = b # rest" by (cases "data_iter st") auto
  have acq: "acquire env step st = (st\<lparr>data_iter := rest\<rparr>, Inr b)"
    using False n br by (simp add: acquire_def)
  have "Suc step mod loader_len env = 0 \<or> loader_len env \<le> length rest + Suc step mod loader_len env"
    using inv False br by (auto simp: mod_Suc)
  with acq False show ?thesis by simp
qed

lemma pull_loop_succeeds:
  assumes n: "0 < loader_len env"
  shows "step mod loader_len env = 0 \<or> loader_len env \<le> length (data_iter st) + step mod loader_len env \<Longrightarrow>
         \<exists>st' bs. pull_loop env step k st = (st', Inr bs) \<and> length bs = k \<and>
           epochs st' = epochs st + length (filter (\<lambda>s. s mod loader_len env = 0) [step..<step + k])"
proof (induction k arbitrary: step st)
  case 0
  then show ?case by simp
next
  case (Suc k)
  from acquire_succeeds [OF n Suc.prems] obtain b st1 where
    acq: "acquire env step st = (st1, Inr b)" and
    inv1: "Suc step mod loader_len env = 0 \<or>
           loader_len env \<le> length (data_iter st1) + Suc step mod loader_len env" and
    ep: "epochs st1 = (if step mod loader_len env = 0 then Suc (epochs st) else epochs st)"
    by (elim exE conjE)
  from Suc.IH [OF inv1] obtain st' bs where
    rest: "pull_loop env (Suc step) k st1 = (st', Inr bs)" and len: "length bs = k" and
    ep': "epochs st' = epochs st1 + length (filter (\<lambda>s. s mod loader_len env = 0) [Suc step..<Suc step + k])"
    by (elim exE conjE)
  have "[step..<step + Suc k] = step # [Suc step..<Suc step + k]"
    by (simp add: upt_conv_Cons del: upt_Suc)
  with acq rest len ep ep' show ?case by simp
qed

lemma emit_fields [simp]:
  "data_iter (emit e st) = data_iter st" "epochs (emit e st) = epochs st"
  "updates (emit e st) = updates st" "trace (emit e st) = trace st @ [e]"
  by (simp_all add: emit_def)

lemma getattr_error: "getattr args k = Inl e \<Longrightarrow> e = AttributeError k"
  by (simp add: getattr_def split: option.splits)

lemma get_int_error: "get_int args k = Inl e \<Longrightarrow> e = AttributeError k \<or> e = TypeError"
  by (auto simp: get_int_def getattr_def split: option.splits val.splits)

lemma input_norm_error: "input_norm x = Inl e \<Longrightarrow> e = IndexError"
  by (simp add: input_norm_def Let_def split: if_splits)

lemma normalise_pair_error: "normalise_pair flag s t = Inl e \<Longrightarrow> e = IndexError"
  by (auto simp: normalise_pair_def split: if_splits sum.splits dest: input_norm_error)

lemma avg_pool2d_error: "avg_pool2d x = Inl e \<Longrightarrow> e = RuntimeError ''Output size is too small''"
  by (simp add: avg_pool2d_def split: if_splits)

lemma gt_pyramid_loop_error:
  "gt_pyramid_loop n x pyr = Inl e \<Longrightarrow> e = RuntimeError ''Output size is too small''"
  by (induction n x pyr rule: gt_pyramid_loop.induct)
     (auto split: sum.splits dest: avg_pool2d_error)

lemma flow_gt_pyramid_error:
  "flow_gt_pyramid n x = Inl e \<Longrightarrow> e = RuntimeError ''Output size is too small''"
  unfolding flow_gt_pyramid_def by (rule gt_pyramid_loop_error)

lemma compute_loss_error:
  "compute_loss env args gt out pyr gpyr = Inl e \<Longrightarrow> e = AttributeError ''loss'' \<or> e = ExternalError"
  by (auto simp: compute_loss_def split: sum.splits if_splits option.splits dest: getattr_error)

lemma level_scalars_keeps:
  "level_scalars env step idx zs st = (st', r) \<Longrightarrow>
   data_iter st' = data_iter st \<and> epochs st' = epochs st \<and> updates st' = updates st \<and>
   (r = None \<or> r = Some ExternalError)"
  by (induction env step idx zs st rule: level_scalars.induct)
     (auto split: option.splits)

lemma np_split_error: "np_split t B = Inl e \<Longrightarrow> e = ZeroDivisionError \<or> e = ValueError"
  by (auto simp: np_split_def split: if_splits)

lemma vis_all_error: "vis_all env cs = Inl e \<Longrightarrow> e = ExternalError"
  by (induction cs arbitrary: e) (auto split: option.splits sum.splits)

lemma min_bound_error: "min_bound B v = Inl e \<Longrightarrow> e = TypeError"
  by (cases v) (auto split: if_splits)

lemma level_pictures_error:
  "level_pictures env args B t = Inl e \<Longrightarrow> e \<noteq> StopIteration \<and> e \<noteq> AssertionError"
  by (auto simp: level_pictures_def split: sum.splits
           dest: np_split_error vis_all_error getattr_error min_bound_error)

lemma concat_axis1_error: "concat_axis1 a b = Inl e \<Longrightarrow> e = ValueError"
  by (auto simp: concat_axis1_def split: if_splits)

lemma concat_pairs_error: "concat_pairs ps = Inl e \<Longrightarrow> e = ValueError"
  by (induction ps arbitrary: e rule: concat_pairs.induct)
     (auto split: sum.splits dest: concat_axis1_error)

lemma squeeze0_error: "squeeze0 t = Inl e \<Longrightarrow> e = ValueError"
  by (auto simp: squeeze0_def split: if_splits)

lemma side_by_side_error: "side_by_side ps = Inl e \<Longrightarrow> e = ValueError"
  by (induction ps arbitrary: e rule: side_by_side.induct)
     (auto split: sum.splits dest: concat_axis1_error squeeze0_error)

lemma frame_pictures_error:
  "frame_pictures B src tgt = Inl e \<Longrightarrow> e = ZeroDivisionError \<or> e = ValueError"
  by (auto simp: frame_pictures_def split: sum.splits dest: np_split_error side_by_side_error)

lemma level_images_keeps:
  "level_images env args step B idx zs st = (st', r) \<Longrightarrow>
   data_iter st' = data_iter st \<and> epochs st' = epochs st \<and> updates st' = updates st \<and>
   r \<noteq> Some StopIteration \<and> r \<noteq> Some AssertionError"
  by (induction env args step B idx zs st rule: level_images.induct)
     (auto split: sum.splits dest: level_pictures_error concat_pairs_error)

lemma summaries_keeps:
  "summaries env args step src tgt pyr gpyr loss st = (st', r) \<Longrightarrow>
   data_iter st' = data_iter st \<and> epochs st' = epochs st \<and> updates st' = updates st \<and>
   r \<noteq> Some StopIteration \<and> r \<noteq> Some AssertionError"
  by (auto simp: summaries_def
           split: prod.splits option.splits list.splits sum.splits
           dest!: level_scalars_keeps level_images_keeps dest: frame_pictures_error)

lemma report_keeps:
  "report env args step src tgt pyr gpyr loss st = (st', r) \<Longrightarrow>
   data_iter st' = data_iter st \<and> epochs st' = epochs st \<and> updates st' = updates st \<and>
   r \<noteq> Some StopIteration \<and> r \<noteq> Some AssertionError"
  by (auto simp: report_def Let_def
           split: sum.splits prod.splits option.splits if_splits
           dest!: summaries_keeps get_int_error)

lemma process_batch_keeps:
  "process_batch env args step b st = (st', r) \<Longrightarrow>
   data_iter st' = data_iter st \<and> epochs st' = epochs st \<and>
   r \<noteq> Some StopIteration \<and> r \<noteq> Some AssertionError"
  by (auto simp: process_batch_def
           split: sum.splits prod.splits option.splits if_splits
           dest!: report_keeps get_int_error getattr_error normalise_pair_error
                  flow_gt_pyramid_error compute_loss_error)

text \<open>
  C3. When the pulled batch has a sample count other than the configured batch size,
  the step ends there: the state is the one left by the pull, with no event added
  (no forward pass, no backward pass, no optimizer update) and no update counted, and the loop
  goes on with the next step.
\<close>

theorem wrong_size_batch_skipped:
  assumes "acquire env step st = (st1, Inr b)"
    and "args ''batch_size'' = Some (VInt n)"
    and "int (nB (src_img b)) \<noteq> n"
  shows "train_step env args step st = (st1, None) \<and>
         trace st1 = trace st \<and> updates st1 = updates st \<and>
         train_loop env args step (Suc k) st = train_loop env args (Suc step) k st1"
proof -
  have 1: "train_step env args step st = (st1, None)"
    using assms by (simp add: train_step_def getattr_def size_differs_def)
  from assms(1) have 2: "trace st1 = trace st \<and> updates st1 = updates st"
    by (rule acquire_keeps)
  from 1 have 3: "train_loop env args step (Suc k) st = train_loop env args (Suc step) k st1"
    by simp
  from 1 2 3 show ?thesis by simp
qed

theorem wrong_size_batch_skipped_witness:
  "acquire demo_env 1 \<lparr>data_iter = [demo_batch 1], epochs = 1, updates = 0, trace = []\<rparr>
     = (\<lparr>data_iter = [], epochs = 1, updates = 0, trace = []\<rparr>, Inr (demo_batch 1)) \<and>
   demo_train_args ''batch_size'' = Some (VInt 2) \<and>
   int (nB (src_img (demo_batch 1))) \<noteq> 2 \<and>
   train_step demo_env demo_train_args 1 \<lparr>data_iter = [demo_batch 1], epochs = 1, updates = 0, trace = []\<rparr>
     = (\<lparr>data_iter = [], epochs = 1, updates = 0, trace = []\<rparr>, None)"
proof -
  let ?st = "\<lparr>data_iter = [demo_batch 1], epochs = 1, updates = 0, trace = []\<rparr>"
  let ?st1 = "\<lparr>data_iter = [], epochs = 1, updates = 0, trace = []\<rparr>"
  have a: "acquire demo_env 1 ?st = (?st1, Inr (demo_batch 1))"
    by (simp add: acquire_def demo_env_def)
  have b: "demo_train_args ''batch_size'' = Some (VInt 2)"
    by (simp add: demo_train_args_def demo_train_cmd_def)
  have c: "int (nB (src_img (demo_batch 1))) \<noteq> 2"
    by (simp add: demo_batch_def demo_tensor_def)
  from wrong_size_batch_skipped [where args = demo_train_args and k = 0, OF a b c] a b c
  show ?thesis by simp
qed

lemma train_step_iter:
  assumes n: "0 < loader_len env"
    and inv: "step mod loader_len env = 0 \<or> loader_len env \<le> length (data_iter st) + step mod loader_len env"
    and run: "train_step env args step st = (st', r)"
  shows "(Suc step mod loader_len env = 0 \<or>
          loader_len env \<le> length (data_iter st') + Suc step mod loader_len env) \<and>
         r \<noteq> Some StopIteration"
proof -
  from acquire_succeeds [OF n inv] obtain b st1 where
    acq: "acquire env step st = (st1, Inr b)" and
    inv1: "Suc step mod loader_len env = 0 \<or>
           loader_len env \<le> length (data_iter st1) + Suc step mod loader_len env"
    by (elim exE conjE)
  show ?thesis
  proof (cases "getattr args ''batch_size''")
    case (Inl e)
    with acq run inv1 show ?thesis
      by (auto simp: train_step_def dest: getattr_error)
  next
    case (Inr bs)
    show ?thesis
    proof (cases "size_differs (nB (src_img b)) bs")
      case True
      with acq run inv1 Inr show ?thesis by (auto simp: train_step_def)
    next
      case False
      with acq run Inr have "process_batch env args step b st1 = (st', r)"
        by (simp add: train_step_def)
      from process_batch_keeps [OF this] inv1 show ?thesis by simp
    qed
  qed
qed

lemma train_loop_no_stop:
  assumes n: "0 < loader_len env"
  shows "step mod loader_len env = 0 \<or> loader_len env \<le> length (data_iter st) + step mod loader_len env \<Longrightarrow>
         snd (train_loop env args step k st) \<noteq> Some StopIteration"
proof (induction k arbitrary: step st)
  case 0
  then show ?case by simp
next
  case (Suc k)
  obtain st1 r where run: "train_step env args step st = (st1, r)"
    by (cases "train_step env args step st")
  from train_step_iter [OF n Suc.prems run] have
    inv1: "Suc step mod loader_len env = 0 \<or>
           loader_len env \<le> length (data_iter st1) + Suc step mod loader_len env" and
    r: "r \<noteq> Some StopIteration"
    by simp_all
  show ?case
  proof (cases r)
    case None
    with run Suc.IH [OF inv1] show ?thesis by simp
  next
    case (Some e)
    with run r show ?thesis by simp
  qed
qed

lemma new_iter_inv:
  "1 mod loader_len env = 0 \<or> loader_len env \<le> length (data_iter (new_iter env st)) + 1 mod loader_len env"
  by (simp add: new_iter_def)

lemma missing_attr_error: "missing_attr args ks = Some e \<Longrightarrow> e \<noteq> StopIteration \<and> e \<noteq> AssertionError"
  by (induction ks) (auto split: if_splits)

lemma train_no_stop:
  assumes n: "0 < loader_len env"
  shows "snd (train env args) \<noteq> Some StopIteration"
proof -
  have loop: "snd (train_loop env args (Suc 0) k (new_iter env st)) \<noteq> Some StopIteration" for k st
    using train_loop_no_stop [OF n new_iter_inv] by simp
  show ?thesis
    by (auto simp: train_def Let_def loop
             split: option.splits sum.splits dest: missing_attr_error get_int_error)
qed

lemma acquire_resets:
  assumes n: "0 < loader_len env" and acq: "acquire env s it = (it', r)"
  shows "epochs it' = (if s mod loader_len env = 0 then Suc (epochs it) else epochs it) \<and>
         (s mod loader_len env = 0 \<longrightarrow> r = Inr (loader_batch env (epochs it) 0))"
proof (cases "s mod loader_len env = 0")
  case True
  from n obtain m where m: "loader_len env = Suc m" by (cases "loader_len env") auto
  have "data_iter (new_iter env it) =
        loader_batch env (epochs it) 0 # map (loader_batch env (epochs it)) [Suc 0..<Suc m]"
    by (simp add: new_iter_def m upt_conv_Cons del: upt_Suc)
  with True n acq show ?thesis by (auto simp: acquire_def new_iter_def)
next
  case False
  with n acq show ?thesis by (auto simp: acquire_def split: list.splits)
qed

text \<open>
  C5. When the loader yields at least one batch per epoch, the pull succeeds at every
  step from 1 to \<open>total_step\<close>: the iterator is recreated exactly at the steps with
  \<open>step mod iter_per_epoch = 0\<close>, before the pull of that step (which then returns the
  first batch of the new iterator), and the training run never ends in StopIteration.
\<close>

theorem batch_stream_never_exhausted:
  assumes "1 \<le> loader_len env"
  shows "(\<exists>st' bs. pull_loop env 1 total_step (new_iter env st) = (st', Inr bs) \<and>
            length bs = total_step \<and>
            epochs st' = Suc (epochs st) +
              length (filter (\<lambda>s. s mod loader_len env = 0) [1..<Suc total_step])) \<and>
         (\<forall>s it it' r. acquire env s it = (it', r) \<longrightarrow>
            epochs it' = (if s mod loader_len env = 0 then Suc (epochs it) else epochs it) \<and>
            (s mod loader_len env = 0 \<longrightarrow> r = Inr (loader_batch env (epochs it) 0))) \<and>
         snd (train env args) \<noteq> Some StopIteration"
proof -
  from assms have n: "0 < loader_len env" by simp
  from pull_loop_succeeds [OF n new_iter_inv, where st1 = st and k = total_step]
  have 1: "\<exists>st' bs. pull_loop env 1 total_step (new_iter env st) = (st', Inr bs) \<and>
            length bs = total_step \<and>
            epochs st' = Suc (epochs st) +
              length (filter (\<lambda>s. s mod loader_len env = 0) [1..<Suc total_step])"
    by (simp add: new_iter_def)
  from 1 acquire_resets [OF n] train_no_stop [OF n] show ?thesis by blast
qed

theorem batch_stream_never_exhausted_witness:
  "1 \<le> loader_len demo_env \<and>
   (\<exists>st' bs. pull_loop demo_env 1 5 (new_iter demo_env \<lparr>data_iter = [], epochs = 0, updates = 0, trace = []\<rparr>)
                = (st', Inr bs) \<and> length bs = 5 \<and> epochs st' = 3) \<and>
   snd (train demo_env demo_train_args) \<noteq> Some StopIteration"
proof -
  have a: "1 \<le> loader_len demo_env" by (simp add: demo_env_def)
  have f: "length (filter (\<lambda>s. s mod loader_len demo_env = 0) [1..<Suc 5]) = 2"
    by (simp add: demo_env_def upt_rec)
  from batch_stream_never_exhausted [OF a, of 5 "\<lparr>data_iter = [], epochs = 0, updates = 0, trace = []\<rparr>" demo_train_args]
  show ?thesis using a f by simp
qed

section \<open>Pyramid depths in a training step\<close>

lemma compute_loss_ignores_pyramids:
  assumes "args ''loss'' = Some (VStr ''L1'') \<or> args ''loss'' = Some (VStr ''L2'')"
  shows "compute_loss env args gt out pyr gpyr = compute_loss env args gt out pyr' gpyr'"
  using assms by (auto simp: compute_loss_def getattr_def)















section \<open>Command lines and modes\<close>

lemma map_of_skip: "k \<notin> fst ` set xs \<Longrightarrow> map_of (xs @ ys) k = map_of ys k"
  by (simp add: map_add_def map_of_eq_None_iff [THEN iffD2])

lemma parse_args_mode:
  assumes "parse_args stamp cl = Inr args" and "mode cl = Some m"
  shows "\<exists>sub. map_of (modes stamp) m = Some sub \<and>
           set (map fst (public_opts cl)) \<subseteq> set (map fst public_parser) \<and>
           set (map fst (mode_opts cl)) \<subseteq> set (map fst sub) - {''func''} \<and>
           args = map_of (mode_opts cl @ public_opts cl @ sub @ public_parser
                          @ [(''subparser_name'', VStr m)])"
  using assms by (auto simp: parse_args_def split: if_splits option.splits)

lemma pred_namespace:
  assumes p: "parse_args stamp cl = Inr args" and m: "mode cl = Some ''pred''"
  shows "args ''crop_shape'' = None \<and> args ''resize_shape'' = None \<and> args ''resize_scale'' = None \<and>
         args ''subparser_name'' = Some (VStr ''pred'') \<and> args ''func'' = Some (VFunc FnPred)"
proof -
  from parse_args_mode [OF p m] have
    pub: "set (map fst (public_opts cl)) \<subseteq> set (map fst public_parser)" and
    opt: "set (map fst (mode_opts cl)) \<subseteq> set (map fst pred_parser) - {''func''}" and
    args: "args = map_of (mode_opts cl @ public_opts cl @ pred_parser @ public_parser
                          @ [(''subparser_name'', VStr ''pred'')])"
    by (auto simp: modes_def)
  have out: "k \<notin> fst ` set (mode_opts cl) \<and> k \<notin> fst ` set (public_opts cl)"
    if "k \<notin> {''input'', ''output'', ''load'', ''search_range'', ''device''}" for k
    using that pub opt by (auto simp: pred_parser_def public_parser_def)
  have look: "args k = map_of (pred_parser @ public_parser @ [(''subparser_name'', VStr ''pred'')]) k"
    if "k \<notin> {''input'', ''output'', ''load'', ''search_range'', ''device''}" for k
  proof -
    from out [OF that] have a: "k \<notin> fst ` set (mode_opts cl)" and b: "k \<notin> fst ` set (public_opts cl)"
      by simp_all
    show ?thesis unfolding args by (simp only: map_of_skip [OF a] map_of_skip [OF b])
  qed
  show ?thesis
    by (simp add: look pred_parser_def public_parser_def)
qed

lemma two_items_cases:
  "two_items v = Inl ValueError \<or> two_items v = Inl TypeError \<or> (\<exists>a b. two_items v = Inr (a, b))"
  by (induction v rule: two_items.induct) simp_all

lemma read_inputs_events:
  "read_inputs env args = (ev, r) \<Longrightarrow>
   (\<exists>p. r = Inr p \<and> ev = [Imread, Imread]) \<or> (\<exists>e. r = Inl e \<and> (ev = [] \<or> ev = [Imread]))"
  by (auto simp: read_inputs_def split: sum.splits option.splits prod.splits)

lemma pred_without_crop_shape:
  assumes "args ''crop_shape'' = None"
  shows "\<exists>ev e. pred env args = (ev, Some e) \<and> Forward \<notin> set ev \<and> SaveFlow \<notin> set ev \<and>
           (ev = [BuildModel, LoadState, Imread, Imread] \<longrightarrow> e = AttributeError ''crop_shape'')"
proof -
  have crop: "crop_stage args src tgt = Inl (AttributeError ''crop_shape'')" for src tgt
    using assms by (simp add: crop_stage_def getattr_def)
  obtain ev r where ri: "read_inputs env args = (ev, r)" by (cases "read_inputs env args")
  from read_inputs_events [OF ri] show ?thesis
    by (auto simp: pred_def ri crop split: sum.splits)
qed

text \<open>
  C9. A namespace parsed from a \<open>pred\<close> command line has no \<open>crop_shape\<close>, \<open>resize_shape\<close> or
  \<open>resize_scale\<close>. The crop stage of \<^verbatim>\<open>pred\<close> therefore raises AttributeError on
  \<open>crop_shape\<close> whatever the images are; every such run ends in an exception with no
  forward pass and no flow saved, and a run that got as far as reading both images
  ends with exactly that AttributeError.
\<close>

theorem pred_mode_never_reaches_flow:
  assumes "mode cl = Some ''pred''" and "parse_args stamp cl = Inr args"
  shows "args ''crop_shape'' = None \<and> args ''resize_shape'' = None \<and> args ''resize_scale'' = None \<and>
         (\<forall>dev src tgt. crop_stage (args(''device'' \<mapsto> dev)) src tgt = Inl (AttributeError ''crop_shape'')) \<and>
         (\<exists>ev e. main env stamp cl = (ev, Some e) \<and> Forward \<notin> set ev \<and> SaveFlow \<notin> set ev \<and>
            (ev = [Dispatch FnPred, BuildModel, LoadState, Imread, Imread] \<longrightarrow>
             e = AttributeError ''crop_shape''))"
proof -
  from pred_namespace [OF assms(2,1)] have
    none: "args ''crop_shape'' = None" "args ''resize_shape'' = None" "args ''resize_scale'' = None" and
    name: "args ''subparser_name'' = Some (VStr ''pred'')" and
    func: "args ''func'' = Some (VFunc FnPred)"
    by simp_all
  have crop: "crop_stage (args(''device'' \<mapsto> dev)) src tgt = Inl (AttributeError ''crop_shape'')"
    for dev src tgt
    using none(1) by (simp add: crop_stage_def getattr_def)
  have run: "\<exists>ev e. run_args env args = (ev, Some e) \<and> Forward \<notin> set ev \<and> SaveFlow \<notin> set ev \<and>
            (ev = [Dispatch FnPred, BuildModel, LoadState, Imread, Imread] \<longrightarrow>
             e = AttributeError ''crop_shape'')"
  proof (cases "check_args args")
    case (Some e)
    then show ?thesis by (simp add: run_args_def)
  next
    case None
    show ?thesis
    proof (cases "args ''device''")
      case None
      with \<open>check_args args = None\<close> show ?thesis by (simp add: run_args_def getattr_def)
    next
      case (Some d)
      show ?thesis
      proof (cases "torch_device env d")
        case None
        with Some \<open>check_args args = None\<close> show ?thesis by (simp add: run_args_def getattr_def)
      next
        case (Some dev)
        have "(args(''device'' \<mapsto> dev)) ''crop_shape'' = None" using none(1) by simp
        from pred_without_crop_shape [where args = "args(''device'' \<mapsto> dev)" and env = env, OF this] obtain ev e where
          p: "pred env (args(''device'' \<mapsto> dev)) = (ev, Some e)" and
          nf: "Forward \<notin> set ev" "SaveFlow \<notin> set ev" and
          at: "ev = [BuildModel, LoadState, Imread, Imread] \<longrightarrow> e = AttributeError ''crop_shape''"
          by blast
        from Some \<open>args ''device'' = Some d\<close> \<open>check_args args = None\<close> func p
        have "run_args env args = (Dispatch FnPred # ev, Some e)"
          by (simp add: run_args_def getattr_def call_func_def)
        with nf at show ?thesis by simp
      qed
    qed
  qed
  from none crop run assms(2) show ?thesis by (simp add: main_def)
qed

lemma eval_namespace:
  assumes p: "parse_args stamp cl = Inr args" and m: "mode cl = Some ''eval''"
  shows "args ''subparser_name'' = Some (VStr ''eval'')"
proof -
  from parse_args_mode [OF p m] have
    pub: "set (map fst (public_opts cl)) \<subseteq> set (map fst public_parser)" and
    opt: "set (map fst (mode_opts cl)) \<subseteq> set (map fst test_parser) - {''func''}" and
    args: "args = map_of (mode_opts cl @ public_opts cl @ test_parser @ public_parser
                          @ [(''subparser_name'', VStr ''eval'')])"
    by (auto simp: modes_def)
  have a: "''subparser_name'' \<notin> fst ` set (mode_opts cl)"
    using opt by (auto simp: test_parser_def)
  have b: "''subparser_name'' \<notin> fst ` set (public_opts cl)"
    using pub by (auto simp: public_parser_def)
  show ?thesis unfolding args
    by (simp only: map_of_skip [OF a] map_of_skip [OF b]) (simp add: test_parser_def public_parser_def)
qed

text \<open>
  C10. On a command line that selects \<open>eval\<close>, \<^verbatim>\<open>main\<close> ends before \<^verbatim>\<open>args.func\<close> is
  called, with no event at all: when the parser accepts the line the exception is the
  RuntimeError of the final \<open>else\<close> branch (the name checked there is \<open>test\<close>, the name
  registered is \<open>eval\<close>); otherwise it is the parser's own exit.
\<close>

theorem eval_mode_never_dispatched:
  assumes "mode cl = Some ''eval''"
  shows "main env stamp cl =
           ([], Some (case parse_args stamp cl of
                        Inl e \<Rightarrow> e
                      | Inr args \<Rightarrow> RuntimeError ''use train/predict/test to select a mode''))"
proof (cases "parse_args stamp cl")
  case (Inl e)
  then show ?thesis by (simp add: main_def)
next
  case (Inr args)
  from eval_namespace [OF Inr assms] have "check_args args = Some (RuntimeError ''use train/predict/test to select a mode'')"
    by (simp add: check_args_def getattr_def)
  with Inr show ?thesis by (simp add: main_def run_args_def)
qed

theorem eval_mode_never_dispatched_witness:
  "mode demo_eval_cmd = Some ''eval'' \<and>
   main demo_env [] demo_eval_cmd = ([], Some (RuntimeError ''use train/predict/test to select a mode''))"
proof -
  have m: "mode demo_eval_cmd = Some ''eval''" by (simp add: demo_eval_cmd_def)
  have p: "\<exists>args. parse_args [] demo_eval_cmd = Inr args"
    by (simp add: parse_args_def demo_eval_cmd_def modes_def public_parser_def test_parser_def)
  from eval_mode_never_dispatched [OF m, of demo_env "[]"] p m show ?thesis by auto
qed

theorem pred_mode_never_reaches_flow_witness:
  "mode demo_pred_cmd = Some ''pred'' \<and>
   (\<exists>args. parse_args [] demo_pred_cmd = Inr args \<and> args ''crop_shape'' = None) \<and>
   main demo_env [] demo_pred_cmd =
     ([Dispatch FnPred, BuildModel, LoadState, Imread, Imread], Some (AttributeError ''crop_shape''))"
proof -
  have m: "mode demo_pred_cmd = Some ''pred''" by (simp add: demo_pred_cmd_def)
  obtain args where p: "parse_args [] demo_pred_cmd = Inr args"
    by (simp add: parse_args_def demo_pred_cmd_def modes_def public_parser_def pred_parser_def)
  have run: "fst (main demo_env [] demo_pred_cmd) = [Dispatch FnPred, BuildModel, LoadState, Imread, Imread]"
    by (simp add: main_def parse_args_def demo_pred_cmd_def modes_def public_parser_def pred_parser_def
          run_args_def check_args_def check_pred_def getattr_def call_func_def pred_def demo_env_def
          read_inputs_def crop_stage_def)
  from pred_mode_never_reaches_flow [OF m p, of demo_env] run p m show ?thesis by auto
qed





subsection \<open>The step loop does not read the weights\<close>













section \<open>Crop and resize in inference\<close>

lemma centre_slice:
  assumes "t \<le> h"
  shows "py_slice h ((int h - int t) div 2) ((int h + int t) div 2) = ((h - t) div 2, t)"
proof -
  let ?lo = "(int h - int t) div 2"
  let ?hi = "(int h + int t) div 2"
  have hi: "?hi = ?lo + int t"
  proof -
    have "int h + int t = (int h - int t) + int t * 2" by simp
    then have "?hi = ((int h - int t) + int t * 2) div 2" by simp
    also have "\<dots> = ?lo + int t" by (simp only: div_mult_self3)
    finally show ?thesis .
  qed
  have lo0: "0 \<le> ?lo" using assms by simp
  have lo_nat: "?lo = int ((h - t) div 2)"
    using assms by (simp add: of_nat_diff zdiv_int)
  have hi_le: "?hi \<le> int h" using assms by simp
  have hi0: "0 \<le> ?hi" by simp
  have c_lo: "clip_index h ?lo = (h - t) div 2"
  proof -
    have "?lo \<le> int h" using assms by simp
    with lo0 have "clip_index h ?lo = nat ?lo" by (simp add: clip_index_def min_def)
    with lo_nat show ?thesis by simp
  qed
  have c_hi: "clip_index h ?hi = (h - t) div 2 + t"
  proof -
    from hi0 hi_le have "clip_index h ?hi = nat ?hi" by (simp add: clip_index_def min_def)
    also have "\<dots> = nat (int ((h - t) div 2) + int t)" using hi lo_nat by simp
    also have "\<dots> = (h - t) div 2 + t" by (simp only: of_nat_add [symmetric] nat_int)
    finally show ?thesis .
  qed
  show ?thesis by (simp add: py_slice_def c_lo c_hi)
qed

text \<open>
  C6. For two frames of height \<open>h\<close> and width \<open>w\<close> and a crop shape \<open>(th, tw)\<close> with
  \<open>th \<le> h\<close> and \<open>tw \<le> w\<close>, the crop stage returns two images of exactly \<open>th\<close> rows and
  \<open>tw\<close> columns, and pixel \<open>(i, j)\<close> of each is pixel
  \<open>((h - th) div 2 + i, (w - tw) div 2 + j)\<close> of its frame: one offset, computed per
  axis by integer division, for both frames.
\<close>

theorem center_crop_pair:
  assumes "rows src = h" "cols src = w" "rows tgt = h" "cols tgt = w"
    and "th \<le> h" "tw \<le> w"
    and "args ''crop_shape'' = Some (VList [VInt (int th), VInt (int tw)])"
  shows "\<exists>s t. crop_stage args src tgt = Inr (s, t) \<and>
           rows s = th \<and> cols s = tw \<and> rows t = th \<and> cols t = tw \<and>
           (\<forall>i j k. pix s i j k = pix src ((h - th) div 2 + i) ((w - tw) div 2 + j) k) \<and>
           (\<forall>i j k. pix t i j k = pix tgt ((h - th) div 2 + i) ((w - tw) div 2 + j) k)"
  using assms
  by (simp add: crop_stage_def getattr_def StaticCenterCrop_def crop_call_def centre_slice)

theorem center_crop_pair_witness:
  "rows demo_image = 4 \<and> cols demo_image = 6 \<and> (2::nat) \<le> 4 \<and> (3::nat) \<le> 6 \<and>
   (\<exists>s t. crop_stage [''crop_shape'' \<mapsto> VList [VInt 2, VInt 3]] demo_image demo_image = Inr (s, t) \<and>
          rows s = 2 \<and> cols s = 3 \<and> rows t = 2 \<and> cols t = 3 \<and>
          pix s 0 0 0 = pix demo_image 1 1 0 \<and> pix t 0 0 0 = 7)"
proof -
  let ?args = "[''crop_shape'' \<mapsto> VList [VInt 2, VInt 3]]"
  have r: "rows demo_image = 4" and c: "cols demo_image = 6" by (simp_all add: demo_image_def)
  have a: "?args ''crop_shape'' = Some (VList [VInt (int 2), VInt (int 3)])" by simp
  from center_crop_pair [where args = ?args and th = 2 and tw = 3, OF r c r c _ _ a]
  obtain s t where
    st: "crop_stage ?args demo_image demo_image = Inr (s, t)"
        "rows s = 2" "cols s = 3" "rows t = 2" "cols t = 3"
        "\<forall>i j k. pix s i j k = pix demo_image ((4 - 2) div 2 + i) ((6 - 3) div 2 + j) k"
        "\<forall>i j k. pix t i j k = pix demo_image ((4 - 2) div 2 + i) ((6 - 3) div 2 + j) k"
    by auto
  from st(6) have "pix s 0 0 0 = pix demo_image 1 1 0" by simp
  moreover from st(7) have "pix t 0 0 0 = 7" by (simp add: demo_image_def)
  ultimately show ?thesis using r c st(1-5) by simp
qed

lemma resize_pair_events:
  "resize_pair env call src tgt = (ev, r) \<Longrightarrow> set ev \<subseteq> {Resize call}"
  by (auto simp: resize_pair_def split: sum.splits)






end
